theory Spec2Isabelle
  imports Main "HOL-Library.Multiset"
begin

section \<open>Data model (src/src/types.ts)\<close>

datatype Suit = HEARTS | DIAMONDS | CLUBS | SPADES

datatype Rank = TWO | THREE | FOUR | FIVE | SIX | SEVEN | EIGHT | NINE | TEN
  | JACK | QUEEN | KING | ACE

text \<open>The string values of the two enums; they only enter a card's id.\<close>

fun suit_value :: "Suit \<Rightarrow> string" where
  "suit_value HEARTS = ''hearts''"
| "suit_value DIAMONDS = ''diamonds''"
| "suit_value CLUBS = ''clubs''"
| "suit_value SPADES = ''spades''"

fun rank_value :: "Rank \<Rightarrow> string" where
  "rank_value TWO = ''2''"
| "rank_value THREE = ''3''"
| "rank_value FOUR = ''4''"
| "rank_value FIVE = ''5''"
| "rank_value SIX = ''6''"
| "rank_value SEVEN = ''7''"
| "rank_value EIGHT = ''8''"
| "rank_value NINE = ''9''"
| "rank_value TEN = ''10''"
| "rank_value JACK = ''J''"
| "rank_value QUEEN = ''Q''"
| "rank_value KING = ''K''"
| "rank_value ACE = ''A''"

text \<open>Interface \<open>Card\<close>. The field \<open>id\<close> of the source is \<open>cardId\<close> here.\<close>

record Card =
  cardId :: string
  suit :: Suit
  rank :: Rank

datatype GameStatus = waiting | playing | choosing_suit | game_over

datatype Difficulty = easy | normal | hard

text \<open>The type \<open>'player' | 'ai'\<close> of \<open>turn\<close>, \<open>winner\<close> and of every \<open>target\<close>.\<close>

datatype Side = player | ai

record GameState =
  deck :: "Card list"
  playerHand :: "Card list"
  aiHand :: "Card list"
  discardPile :: "Card list"
  currentSuit :: "Suit option"
  turn :: Side
  status :: GameStatus
  winner :: "Side option"
  difficulty :: Difficulty

text \<open>
  What a transition does instead of returning a state: reading \<open>.rank\<close> or \<open>.id\<close> of
  \<open>undefined\<close> throws a \<open>TypeError\<close>; a loop that never ends is \<open>NoReturn\<close>.
\<close>

datatype failure = TypeError | NoReturn

section \<open>Constants and helpers (src/src/App.tsx)\<close>

definition SUITS :: "Suit list" where
  "SUITS = [HEARTS, DIAMONDS, CLUBS, SPADES]"

definition RANKS :: "Rank list" where
  "RANKS = [ACE, TWO, THREE, FOUR, FIVE, SIX, SEVEN, EIGHT, NINE, TEN, JACK, QUEEN, KING]"

definition mkCard :: "Rank \<Rightarrow> Suit \<Rightarrow> Card" where
  "mkCard r s = \<lparr>cardId = rank_value r @ ''-'' @ suit_value s, suit = s, rank = r\<rparr>"

text \<open>\<open>createDeck\<close>: for each suit, for each rank, push the card.\<close>

definition createDeck :: "Card list" where
  "createDeck = concat (map (\<lambda>s. map (\<lambda>r. mkCard r s) RANKS) SUITS)"

text \<open>Reading and writing \<open>prev[handKey]\<close>, the key being chosen by the target.\<close>

fun hand_of :: "Side \<Rightarrow> GameState \<Rightarrow> Card list" where
  "hand_of player st = playerHand st"
| "hand_of ai st = aiHand st"

fun with_hand :: "Side \<Rightarrow> Card list \<Rightarrow> GameState \<Rightarrow> GameState" where
  "with_hand player h st = st\<lparr>playerHand := h\<rparr>"
| "with_hand ai h st = st\<lparr>aiHand := h\<rparr>"

section \<open>Game actions\<close>

text \<open>
  The \<open>counts\<close> object of \<open>playCard\<close> and of the hard branch: every suit starts at 0 and
  \<open>forEach\<close> increments the entry of each card's suit.
\<close>

definition count_suits :: "Card list \<Rightarrow> Suit \<Rightarrow> nat" where
  "count_suits cards = fold (\<lambda>c counts. counts(suit c := counts (suit c) + 1)) cards (\<lambda>_. 0)"

text \<open>
  \<open>Object.entries(counts).reduce((a, b) => a[1] > b[1] ? a : b)[0]\<close>: the entries come in
  the order the keys were written, and \<open>reduce\<close> without an initial value starts from the
  first entry.
\<close>

definition entries_of :: "(Suit \<Rightarrow> nat) \<Rightarrow> (Suit \<times> nat) list" where
  "entries_of counts = [(HEARTS, counts HEARTS), (DIAMONDS, counts DIAMONDS),
     (CLUBS, counts CLUBS), (SPADES, counts SPADES)]"

definition ai_suit :: "Card list \<Rightarrow> Suit" where
  "ai_suit newHand =
     (let entries = entries_of (count_suits newHand)
      in fst (foldl (\<lambda>a b. if snd a > snd b then a else b) (hd entries) (tl entries)))"

text \<open>
  \<open>playCard\<close> (lines 230-277), its parameter \<open>card\<close> written \<open>crd\<close>; the messages
  shown to the user are left out.
\<close>

definition playCard :: "Card \<Rightarrow> Side \<Rightarrow> GameState \<Rightarrow> GameState" where
  "playCard crd target prev =
     (let isPlayer = (target = player);
          newHand = filter (\<lambda>c. cardId c \<noteq> cardId crd) (hand_of target prev);
          newDiscardPile = discardPile prev @ [crd];
          nextTurn = (if isPlayer then ai else player)
      in if length newHand = 0 then
           (with_hand target newHand prev)
             \<lparr>discardPile := newDiscardPile, status := game_over, winner := Some target\<rparr>
         else
           let (nextStatus, nextSuit) =
                 (if rank crd = EIGHT then
                    (if isPlayer then (choosing_suit, suit crd)
                     else (playing, ai_suit newHand))
                  else (playing, suit crd))
           in (with_hand target newHand prev)
                \<lparr>discardPile := newDiscardPile, currentSuit := Some nextSuit,
                 status := nextStatus, turn := nextTurn\<rparr>)"

text \<open>\<open>selectSuit\<close> (lines 279-287).\<close>

definition selectSuit :: "Suit \<Rightarrow> GameState \<Rightarrow> GameState" where
  "selectSuit s prev = prev\<lparr>currentSuit := Some s, status := playing, turn := ai\<rparr>"

text \<open>
  \<open>drawCard\<close> (lines 195-228). \<open>canPlay\<close> is the local of that name: \<open>||\<close> evaluates
  from the left, so \<open>topCard.rank\<close> is only read for a drawn card that is not an 8, and
  throws when the discard pile is empty.
\<close>

definition canPlay :: "Card \<Rightarrow> GameState \<Rightarrow> failure + bool" where
  "canPlay drawnCard prev =
     (if rank drawnCard = EIGHT then Inr True
      else if discardPile prev = [] then Inl TypeError
      else let topCard = last (discardPile prev)
           in Inr (rank drawnCard = rank topCard \<or> Some (suit drawnCard) = currentSuit prev))"

definition drawCard :: "Side \<Rightarrow> GameState \<Rightarrow> failure + GameState" where
  "drawCard target prev =
     (if length (deck prev) = 0 then
        Inr (prev\<lparr>turn := (if turn prev = player then ai else player)\<rparr>)
      else
        let newDeck = butlast (deck prev);
            drawnCard = last (deck prev);
            isPlayer = (target = player);
            newState = (with_hand target (hand_of target prev @ [drawnCard]) prev)
                         \<lparr>deck := newDeck, turn := turn prev\<rparr>
        in case canPlay drawnCard prev of
             Inl e \<Rightarrow> Inl e
           | Inr c \<Rightarrow>
               if \<not> c then Inr (newState\<lparr>turn := (if isPlayer then ai else player)\<rparr>)
               else Inr newState)"

text \<open>
  \<open>shuffle\<close> (lines 48-55). \<open>rnd i\<close> is the value of
  \<open>Math.floor(Math.random() * (i + 1))\<close> in the iteration with index \<open>i\<close>, a number from
  0 to \<open>i\<close>; the destructuring assignment reads both elements before it writes them.
\<close>

definition swap :: "nat \<Rightarrow> nat \<Rightarrow> 'a list \<Rightarrow> 'a list" where
  "swap i j xs = xs[i := xs ! j, j := xs ! i]"

fun shuffle_loop :: "(nat \<Rightarrow> nat) \<Rightarrow> nat \<Rightarrow> Card list \<Rightarrow> Card list" where
  "shuffle_loop rnd 0 newDeck = newDeck"
| "shuffle_loop rnd (Suc i) newDeck = shuffle_loop rnd i (swap (Suc i) (rnd (Suc i)) newDeck)"

definition shuffle :: "(nat \<Rightarrow> nat) \<Rightarrow> Card list \<Rightarrow> Card list" where
  "shuffle rnd dk = shuffle_loop rnd (length dk - 1) dk"

text \<open>The picks of a shuffle of \<open>n\<close> cards, made for \<open>i\<close> from \<open>n - 1\<close> down to 1, are in range.\<close>

definition picks_ok :: "(nat \<Rightarrow> nat) \<Rightarrow> nat \<Rightarrow> bool" where
  "picks_ok rnd n = list_all (\<lambda>i. rnd i \<le> i) [1..<n]"

text \<open>
  The loop of \<open>initGame\<close> (lines 176-179): while the revealed card is an 8 it is put at
  the front of the deck and the deck's last card is popped. After \<open>unshift\<close> the deck is
  not empty, so this \<open>pop\<close> always yields a card. A loop that never ends has no value.
\<close>

partial_function (option) redraw :: "Card \<Rightarrow> Card list \<Rightarrow> (Card \<times> Card list) option" where
  "redraw initialDiscard fullDeck =
     (if rank initialDiscard = EIGHT then
        (let unshifted = initialDiscard # fullDeck
         in redraw (last unshifted) (butlast unshifted))
      else Some (initialDiscard, fullDeck))"

declare redraw.simps [code]

text \<open>
  \<open>initGame\<close> (lines 169-193). The first \<open>pop\<close> of an empty array would give
  \<open>undefined\<close>, whose \<open>.rank\<close> throws.
\<close>

definition initGame :: "(nat \<Rightarrow> nat) \<Rightarrow> Difficulty \<Rightarrow> failure + GameState" where
  "initGame rnd dif =
     (let fullDeck = shuffle rnd createDeck;
          pHand = take 8 fullDeck;
          fullDeck1 = drop 8 fullDeck;
          aHand = take 8 fullDeck1;
          fullDeck2 = drop 8 fullDeck1
      in if fullDeck2 = [] then Inl TypeError
         else case redraw (last fullDeck2) (butlast fullDeck2) of
                None \<Rightarrow> Inl NoReturn
              | Some (initialDiscard, rest) \<Rightarrow>
                  Inr \<lparr>deck = rest, playerHand = pHand, aiHand = aHand,
                       discardPile = [initialDiscard],
                       currentSuit = Some (suit initialDiscard),
                       turn = player, status = playing, winner = None,
                       difficulty = dif\<rparr>)"

section \<open>The computer opponent (lines 291-335)\<close>

text \<open>
  The callback of \<open>state.aiHand.filter\<close>, written out in the source a second time; it
  throws like \<open>canPlay\<close> when there is no top card and the card is not an 8.
\<close>

definition aiCandidate :: "Card \<Rightarrow> GameState \<Rightarrow> failure + bool" where
  "aiCandidate c state =
     (if rank c = EIGHT then Inr True
      else if discardPile state = [] then Inl TypeError
      else let topCard = last (discardPile state)
           in Inr (rank c = rank topCard \<or> Some (suit c) = currentSuit state))"

fun filterE :: "('a \<Rightarrow> failure + bool) \<Rightarrow> 'a list \<Rightarrow> failure + 'a list" where
  "filterE p [] = Inr []"
| "filterE p (x # xs) =
     (case p x of
        Inl e \<Rightarrow> Inl e
      | Inr b \<Rightarrow> (case filterE p xs of
                    Inl e \<Rightarrow> Inl e
                  | Inr ys \<Rightarrow> Inr (if b then x # ys else ys)))"

definition playableCards :: "GameState \<Rightarrow> failure + Card list" where
  "playableCards state = filterE (\<lambda>c. aiCandidate c state) (aiHand state)"

text \<open>
  The choice among a non-empty \<open>playableCards\<close>. \<open>pick\<close> is the value of
  \<open>Math.floor(Math.random() * playableCards.length)\<close>; an index out of range would hand
  \<open>undefined\<close> to \<open>playCard\<close>, whose filter then throws on \<open>card.id\<close>.
\<close>

definition cardToPlay :: "nat \<Rightarrow> GameState \<Rightarrow> Card list \<Rightarrow> failure + Card" where
  "cardToPlay pick state pcs =
     (if difficulty state = easy then
        (if pick < length pcs then Inr (pcs ! pick) else Inl TypeError)
      else if difficulty state = normal then
        (case find (\<lambda>c. rank c \<noteq> EIGHT) pcs of
           Some nonEight \<Rightarrow> Inr nonEight
         | None \<Rightarrow> Inr (hd pcs))
      else
        let nonEights = filter (\<lambda>c. rank c \<noteq> EIGHT) pcs
        in if length nonEights > 0 then
             let counts = count_suits (aiHand state)
             in Inr (foldl (\<lambda>prv curr. if counts (suit curr) > counts (suit prv) then curr else prv)
                       (hd nonEights) (tl nonEights))
           else Inr (hd pcs))"

definition aiTurn :: "nat \<Rightarrow> GameState \<Rightarrow> failure + GameState" where
  "aiTurn pick state =
     (if status state = playing \<and> turn state = ai then
        (case playableCards state of
           Inl e \<Rightarrow> Inl e
         | Inr pcs \<Rightarrow>
             if length pcs > 0 then
               (case cardToPlay pick state pcs of
                  Inl e \<Rightarrow> Inl e
                | Inr c \<Rightarrow> Inr (playCard c ai state))
             else drawCard ai state)
      else Inr state)"

section \<open>What the human can trigger (lines 339-340, 452-466, 549-561)\<close>

definition isPlayerTurn :: "GameState \<Rightarrow> bool" where
  "isPlayerTurn state = (turn state = player \<and> status state = playing)"

text \<open>
  \<open>isPlayable\<close> of the player's hand: \<open>topDiscard?.rank\<close> is \<open>undefined\<close>, equal to no
  rank, when the discard pile is empty.
\<close>

definition isPlayable :: "Card \<Rightarrow> GameState \<Rightarrow> bool" where
  "isPlayable c state =
     (isPlayerTurn state \<and>
      (rank c = EIGHT
       \<or> (discardPile state \<noteq> [] \<and> rank c = rank (last (discardPile state)))
       \<or> Some (suit c) = currentSuit state))"

text \<open>
  A click on a card of the player's hand: the \<open>Card\<close> component installs
  \<open>() => playCard(card, 'player')\<close> as its handler only when \<open>isPlayable\<close> holds
  (line 110), otherwise the click does nothing.
\<close>

definition clickCard :: "Card \<Rightarrow> GameState \<Rightarrow> GameState" where
  "clickCard c state = (if isPlayable c state then playCard c player state else state)"

text \<open>
  A click on a suit button: the buttons calling \<open>selectSuit\<close> exist only while
  \<open>state.status === 'choosing_suit'\<close> (line 549).
\<close>

definition clickSuit :: "Suit \<Rightarrow> GameState \<Rightarrow> GameState" where
  "clickSuit s state = (if status state = choosing_suit then selectSuit s state else state)"

section \<open>Sequences of operations\<close>

text \<open>The four operations on the state; \<open>Start\<close> carries the picks of its shuffle.\<close>

datatype Action = Start "nat \<Rightarrow> nat" Difficulty | Draw Side | Play Card Side | ChooseSuit Suit

fun step :: "GameState \<Rightarrow> Action \<Rightarrow> failure + GameState" where
  "step st (Start rnd dif) = initGame rnd dif"
| "step st (Draw target) = drawCard target st"
| "step st (Play c target) = Inr (playCard c target st)"
| "step st (ChooseSuit s) = Inr (selectSuit s st)"

fun run :: "GameState \<Rightarrow> Action list \<Rightarrow> failure + GameState" where
  "run st [] = Inr st"
| "run st (a # as) = (case step st a of Inl e \<Rightarrow> Inl e | Inr st' \<Rightarrow> run st' as)"

text \<open>
  A sequence in which every \<open>Play\<close> names a card that its target holds at that moment
  (and every \<open>Start\<close> shuffles with picks in range).
\<close>

fun held :: "GameState \<Rightarrow> Action \<Rightarrow> bool" where
  "held st (Play c target) = (c \<in> set (hand_of target st))"
| "held st (Start rnd dif) = picks_ok rnd 52"
| "held st _ = True"

fun all_held :: "GameState \<Rightarrow> Action list \<Rightarrow> bool" where
  "all_held st [] = True"
| "all_held st (a # as) =
     (held st a \<and> (case step st a of Inl e \<Rightarrow> True | Inr st' \<Rightarrow> all_held st' as))"

definition total :: "GameState \<Rightarrow> nat" where
  "total st = length (deck st) + length (playerHand st) + length (aiHand st)
              + length (discardPile st)"

definition all_cards :: "GameState \<Rightarrow> Card multiset" where
  "all_cards st = mset (deck st) + mset (playerHand st) + mset (aiHand st)
                  + mset (discardPile st)"

section \<open>Notions used to state the properties\<close>

text \<open>
  The playability rule in the words of the specification: a card is playable against a
  top card and a current suit iff its rank is 8, or its rank is the top card's, or its
  suit is the current suit.
\<close>

definition spec_isPlayable :: "Card \<Rightarrow> Card \<Rightarrow> Suit option \<Rightarrow> bool" where
  "spec_isPlayable c topCard cur = (rank c = EIGHT \<or> rank c = rank topCard \<or> Some (suit c) = cur)"

text \<open>The position of a suit in the enumeration \<open>SUITS\<close>, and the cards of a suit in a hand.\<close>

fun suit_index :: "Suit \<Rightarrow> nat" where
  "suit_index HEARTS = 0"
| "suit_index DIAMONDS = 1"
| "suit_index CLUBS = 2"
| "suit_index SPADES = 3"

definition suit_count :: "Suit \<Rightarrow> Card list \<Rightarrow> nat" where
  "suit_count s h = length (filter (\<lambda>c. suit c = s) h)"

text \<open>Two small tables on which the properties are run.\<close>

definition table1 :: GameState where
  "table1 = \<lparr>deck = [mkCard TWO CLUBS],
     playerHand = [mkCard EIGHT SPADES, mkCard THREE HEARTS],
     aiHand = [mkCard EIGHT CLUBS, mkCard FOUR HEARTS, mkCard NINE SPADES],
     discardPile = [mkCard FIVE DIAMONDS], currentSuit = Some DIAMONDS,
     turn = player, status = playing, winner = None, difficulty = hard\<rparr>"

definition table2 :: GameState where
  "table2 = table1\<lparr>turn := ai,
     aiHand := [mkCard EIGHT CLUBS, mkCard NINE DIAMONDS, mkCard FIVE HEARTS,
                mkCard TWO DIAMONDS, mkCard KING HEARTS, mkCard FIVE SPADES]\<rparr>"

text \<open>The state before the first game (\<open>useState\<close>, lines 144-154).\<close>

definition initialState :: GameState where
  "initialState = \<lparr>deck = [], playerHand = [], aiHand = [], discardPile = [],
     currentSuit = None, turn = player, status = waiting, winner = None,
     difficulty = normal\<rparr>"

text \<open>
  Two shuffles: one whose every pick is the index itself, which leaves the deck in the
  order of \<open>createDeck\<close>, and one that in its first iteration brings the 8 of hearts to
  the end of the deck.
\<close>

definition keep_order :: "nat \<Rightarrow> nat" where
  "keep_order i = i"

definition eight_last :: "nat \<Rightarrow> nat" where
  "eight_last i = (if i = 51 then 7 else i)"

text \<open>A component of the state a transition ends in, if it ends in one.\<close>

definition outcome :: "(GameState \<Rightarrow> 'a) \<Rightarrow> failure + GameState \<Rightarrow> 'a option" where
  "outcome f r = (case r of Inl e \<Rightarrow> None | Inr st \<Rightarrow> Some (f st))"

text \<open>
  The invariant of the game: the four piles together hold the cards of \<open>createDeck\<close>,
  each once, and the discard pile has a top card.
\<close>

definition conserved :: "GameState \<Rightarrow> bool" where
  "conserved st = (all_cards st = mset createDeck \<and> discardPile st \<noteq> [])"

section \<open>Properties of playCard\<close>

text \<open>
  C10. For every state, card and target, \<open>playCard\<close> appends exactly that card to the end
  of the discard pile, which grows by one on every call; the target's hand is only
  filtered by card id and the other hand and the deck are untouched. Nothing checks that
  the card is in the hand: for a card whose id no card of the hand has, the hand is
  unchanged and the discard pile still receives the card, and whenever the filtered hand
  is not empty the current suit is set and the turn goes to the other side.
\<close>

theorem playCard_appends_unconditionally:
  "discardPile (playCard crd target prev) = discardPile prev @ [crd]
   \<and> length (discardPile (playCard crd target prev)) = length (discardPile prev) + 1
   \<and> hand_of target (playCard crd target prev)
       = filter (\<lambda>c. cardId c \<noteq> cardId crd) (hand_of target prev)
   \<and> hand_of (if target = player then ai else player) (playCard crd target prev)
       = hand_of (if target = player then ai else player) prev
   \<and> deck (playCard crd target prev) = deck prev
   \<and> (cardId crd \<notin> cardId ` set (hand_of target prev) \<longrightarrow>
        hand_of target (playCard crd target prev) = hand_of target prev)
   \<and> (filter (\<lambda>c. cardId c \<noteq> cardId crd) (hand_of target prev) \<noteq> [] \<longrightarrow>
        currentSuit (playCard crd target prev) \<noteq> None
        \<and> (\<not> (rank crd = EIGHT \<and> target = ai) \<longrightarrow>
             currentSuit (playCard crd target prev) = Some (suit crd))
        \<and> turn (playCard crd target prev) = (if target = player then ai else player))"
proof -
  have keep: "cardId crd \<notin> cardId ` set h \<Longrightarrow> filter (\<lambda>c. cardId c \<noteq> cardId crd) h = h" for h
    by (induction h) auto
  show ?thesis
    by (cases target) (auto simp: playCard_def Let_def keep)
qed

theorem playCard_appends_unconditionally_witness:
  "cardId (mkCard KING CLUBS) \<notin> cardId ` set (hand_of player table1)
   \<and> filter (\<lambda>c. cardId c \<noteq> cardId (mkCard KING CLUBS)) (hand_of player table1) \<noteq> []
   \<and> discardPile (playCard (mkCard KING CLUBS) player table1)
       = [mkCard FIVE DIAMONDS, mkCard KING CLUBS]
   \<and> hand_of player (playCard (mkCard KING CLUBS) player table1) = hand_of player table1
   \<and> currentSuit (playCard (mkCard KING CLUBS) player table1) = Some CLUBS
   \<and> turn (playCard (mkCard KING CLUBS) player table1) = ai"
  using playCard_appends_unconditionally [of "mkCard KING CLUBS" player table1]
  by (simp add: table1_def mkCard_def)

text \<open>
  C5. For every state and either side: when the played card is the side's last one, so
  that the filtered hand is empty, the result has status \<open>game_over\<close> and that side as
  winner, and nothing else happens: the current suit and the turn are the ones of the
  prior state, also when the card is an 8 (no \<open>choosing_suit\<close>, no suit heuristic).
  A hand that consists of the played card alone is the case \<open>hand_of target prev = [crd]\<close>.
\<close>

theorem playCard_last_card_wins:
  "filter (\<lambda>c. cardId c \<noteq> cardId crd) (hand_of target prev) = [] \<Longrightarrow>
     status (playCard crd target prev) = game_over
     \<and> winner (playCard crd target prev) = Some target
     \<and> hand_of target (playCard crd target prev) = []
     \<and> discardPile (playCard crd target prev) = discardPile prev @ [crd]
     \<and> currentSuit (playCard crd target prev) = currentSuit prev
     \<and> turn (playCard crd target prev) = turn prev
     \<and> playCard crd target prev
         = (with_hand target [] prev)
             \<lparr>discardPile := discardPile prev @ [crd], status := game_over,
              winner := Some target\<rparr>"
  by (cases target) (simp_all add: playCard_def Let_def)

theorem playCard_last_card_wins_witness:
  "filter (\<lambda>c. cardId c \<noteq> cardId (mkCard EIGHT SPADES))
      (hand_of player (table1\<lparr>playerHand := [mkCard EIGHT SPADES]\<rparr>)) = []
   \<and> status (playCard (mkCard EIGHT SPADES) player (table1\<lparr>playerHand := [mkCard EIGHT SPADES]\<rparr>))
       = game_over
   \<and> winner (playCard (mkCard EIGHT SPADES) player (table1\<lparr>playerHand := [mkCard EIGHT SPADES]\<rparr>))
       = Some player
   \<and> currentSuit (playCard (mkCard EIGHT SPADES) player (table1\<lparr>playerHand := [mkCard EIGHT SPADES]\<rparr>))
       = Some DIAMONDS"
  using playCard_last_card_wins [of "mkCard EIGHT SPADES" player "table1\<lparr>playerHand := [mkCard EIGHT SPADES]\<rparr>"]
  by (simp add: table1_def mkCard_def)

section \<open>Properties of drawCard\<close>

text \<open>
  C6, as the claim states it for every state, fails: \<open>drawCard\<close> tests neither that the
  discard pile has a top card nor that the target holds the turn. With a card in the deck
  and an empty discard pile, a drawn card that is not an 8 makes it throw, and nothing is
  drawn. When the computer holds the turn and a card is drawn for the player, the player
  receives a playable card (the 5 of clubs on the 5 of diamonds) and the turn is still the
  computer's. With an empty deck, a draw for the computer while the player holds the turn
  gives the turn to the computer, the drawing side.
\<close>

theorem drawCard_behaviour_counterexample:
  "deck (initialState\<lparr>deck := [mkCard TWO CLUBS]\<rparr>) \<noteq> []
   \<and> drawCard player (initialState\<lparr>deck := [mkCard TWO CLUBS]\<rparr>) = Inl TypeError
   \<and> turn (table2\<lparr>deck := [mkCard FIVE CLUBS]\<rparr>) = ai
   \<and> rank (mkCard FIVE CLUBS) = rank (last (discardPile (table2\<lparr>deck := [mkCard FIVE CLUBS]\<rparr>)))
   \<and> outcome playerHand (drawCard player (table2\<lparr>deck := [mkCard FIVE CLUBS]\<rparr>))
       = Some [mkCard EIGHT SPADES, mkCard THREE HEARTS, mkCard FIVE CLUBS]
   \<and> outcome turn (drawCard player (table2\<lparr>deck := [mkCard FIVE CLUBS]\<rparr>)) = Some ai
   \<and> turn (table1\<lparr>deck := []\<rparr>) = player
   \<and> outcome turn (drawCard ai (table1\<lparr>deck := []\<rparr>)) = Some ai"
  by (simp add: initialState_def table1_def table2_def mkCard_def drawCard_def canPlay_def
      outcome_def)

text \<open>
  C6, amended. \<open>drawCard\<close> for a target: with an empty deck the result is the prior state
  with the turn flipped from the side that holds it to the other, so no card is drawn and
  both hands are as before. With a card in the deck and a top card on the discard pile,
  the deck's last card is removed and appended to the target's hand, the other hand is
  untouched, and the turn stays with the side that holds it if the drawn card is an 8,
  has the top card's rank or has the current suit, and goes to the side opposite the
  target if not; so a target that holds the turn keeps it iff the drawn card is playable.
\<close>

theorem drawCard_behaviour:
  "(deck prev = [] \<longrightarrow>
      drawCard target prev = Inr (prev\<lparr>turn := (if turn prev = player then ai else player)\<rparr>))
   \<and> (deck prev \<noteq> [] \<and> discardPile prev \<noteq> [] \<longrightarrow>
        (\<exists>st. drawCard target prev = Inr st
           \<and> deck st = butlast (deck prev)
           \<and> hand_of target st = hand_of target prev @ [last (deck prev)]
           \<and> hand_of (if target = player then ai else player) st
               = hand_of (if target = player then ai else player) prev
           \<and> discardPile st = discardPile prev \<and> currentSuit st = currentSuit prev
           \<and> status st = status prev \<and> winner st = winner prev
           \<and> turn st =
               (if rank (last (deck prev)) = EIGHT
                   \<or> rank (last (deck prev)) = rank (last (discardPile prev))
                   \<or> Some (suit (last (deck prev))) = currentSuit prev
                then turn prev else (if target = player then ai else player))
           \<and> (turn prev = target \<longrightarrow>
                (turn st = target) =
                  (rank (last (deck prev)) = EIGHT
                   \<or> rank (last (deck prev)) = rank (last (discardPile prev))
                   \<or> Some (suit (last (deck prev))) = currentSuit prev))))"
  by (cases target) (auto simp: drawCard_def canPlay_def Let_def)

theorem drawCard_behaviour_witness:
  "deck table1 \<noteq> [] \<and> discardPile table1 \<noteq> [] \<and> turn table1 = player
   \<and> drawCard player table1
       = Inr (table1\<lparr>deck := [],
                playerHand := [mkCard EIGHT SPADES, mkCard THREE HEARTS, mkCard TWO CLUBS],
                turn := ai\<rparr>)
   \<and> drawCard player (table1\<lparr>deck := [mkCard TWO DIAMONDS]\<rparr>)
       = Inr (table1\<lparr>deck := [],
                playerHand := [mkCard EIGHT SPADES, mkCard THREE HEARTS, mkCard TWO DIAMONDS]\<rparr>)
   \<and> deck (table1\<lparr>deck := []\<rparr>) = []
   \<and> drawCard player (table1\<lparr>deck := []\<rparr>) = Inr (table1\<lparr>deck := [], turn := ai\<rparr>)"
  using drawCard_behaviour [of table1 player]
    drawCard_behaviour [of "table1\<lparr>deck := []\<rparr>" player]
  by (simp add: table1_def mkCard_def drawCard_def canPlay_def)

section \<open>Properties of selectSuit\<close>

text \<open>
  C9, as the claim states it, fails: \<open>selectSuit\<close> has no test of the status, and called
  on a state whose status is \<open>playing\<close> it changes that state.
\<close>

theorem selectSuit_counterexample:
  "status table1 \<noteq> choosing_suit \<and> selectSuit HEARTS table1 \<noteq> table1"
  by (simp add: selectSuit_def table1_def)

text \<open>
  C9, amended. \<open>selectSuit\<close> sets the current suit to the chosen suit, the status to
  \<open>playing\<close> and the turn to \<open>ai\<close> in every state, whatever the status, and changes
  nothing else. The restriction to \<open>choosing_suit\<close> is made by the presentation layer:
  the suit buttons exist only in that status, so a choice of suit reaches \<open>selectSuit\<close>
  in that status and in no other.
\<close>

theorem selectSuit_unguarded:
  "currentSuit (selectSuit s prev) = Some s
   \<and> status (selectSuit s prev) = playing
   \<and> turn (selectSuit s prev) = ai
   \<and> selectSuit s prev = prev\<lparr>currentSuit := Some s, status := playing, turn := ai\<rparr>
   \<and> (status prev = choosing_suit \<longrightarrow> clickSuit s prev = selectSuit s prev)
   \<and> (status prev \<noteq> choosing_suit \<longrightarrow> clickSuit s prev = prev)"
  by (simp add: selectSuit_def clickSuit_def)

theorem selectSuit_unguarded_witness:
  "status (table1\<lparr>status := choosing_suit, turn := ai\<rparr>) = choosing_suit
   \<and> clickSuit HEARTS (table1\<lparr>status := choosing_suit, turn := ai\<rparr>)
       = table1\<lparr>currentSuit := Some HEARTS, turn := ai\<rparr>
   \<and> status (table1\<lparr>status := game_over\<rparr>) \<noteq> choosing_suit
   \<and> clickSuit HEARTS (table1\<lparr>status := game_over\<rparr>) = table1\<lparr>status := game_over\<rparr>"
  using selectSuit_unguarded [of HEARTS "table1\<lparr>status := choosing_suit, turn := ai\<rparr>"]
    selectSuit_unguarded [of HEARTS "table1\<lparr>status := game_over\<rparr>"]
  by (simp add: table1_def)

section \<open>The human's play\<close>

text \<open>
  C3, as the claim states it, fails: \<open>playCard\<close> rejects nothing. Played for the player,
  a card of the hand that is not playable, and a card that is not in the hand, both
  change the state.
\<close>

theorem playCard_unguarded_counterexample:
  "mkCard THREE HEARTS \<in> set (playerHand table1)
   \<and> \<not> spec_isPlayable (mkCard THREE HEARTS) (last (discardPile table1)) (currentSuit table1)
   \<and> playCard (mkCard THREE HEARTS) player table1 \<noteq> table1
   \<and> mkCard KING CLUBS \<notin> set (playerHand table1)
   \<and> playCard (mkCard KING CLUBS) player table1 \<noteq> table1"
  by (simp add: table1_def mkCard_def playCard_def spec_isPlayable_def)

text \<open>
  C3, amended. The rejection is made by the caller: a click on a card of the player's
  hand calls \<open>playCard\<close> only when it is the player's turn, the status is \<open>playing\<close> and
  the card is an 8, has the top card's rank or has the current suit. In every other
  case the click leaves the state as it is.
\<close>

theorem clickCard_rejects:
  "(turn state \<noteq> player \<or> status state \<noteq> playing
     \<or> (rank c \<noteq> EIGHT
         \<and> (discardPile state = [] \<or> rank c \<noteq> rank (last (discardPile state)))
         \<and> Some (suit c) \<noteq> currentSuit state))
   \<Longrightarrow> clickCard c state = state"
  by (auto simp: clickCard_def isPlayable_def isPlayerTurn_def)

theorem clickCard_rejects_witness:
  "rank (mkCard THREE HEARTS) \<noteq> EIGHT
   \<and> rank (mkCard THREE HEARTS) \<noteq> rank (last (discardPile table1))
   \<and> Some (suit (mkCard THREE HEARTS)) \<noteq> currentSuit table1
   \<and> clickCard (mkCard THREE HEARTS) table1 = table1"
  using clickCard_rejects [of table1 "mkCard THREE HEARTS"]
  by (simp add: table1_def mkCard_def)

section \<open>The playability rule at its three sites\<close>

lemma filterE_total:
  "\<forall>x\<in>set xs. p x = Inr (q x) \<Longrightarrow> filterE p xs = Inr (filter q xs)"
  by (induction xs) auto

text \<open>
  C2, as the claim states it, fails at the human's site: the \<open>isPlayable\<close> of the player's
  hand also requires the player's turn, so while it is the computer's turn an 8 of the
  player's hand, playable by the rule, is not deemed playable.
\<close>

theorem playability_counterexample:
  "spec_isPlayable (mkCard EIGHT SPADES) (last (discardPile (table1\<lparr>turn := ai\<rparr>)))
      (currentSuit (table1\<lparr>turn := ai\<rparr>))
   \<and> \<not> isPlayable (mkCard EIGHT SPADES) (table1\<lparr>turn := ai\<rparr>)"
  by (simp add: spec_isPlayable_def isPlayable_def isPlayerTurn_def table1_def mkCard_def)

text \<open>
  C2, amended. When the discard pile has a top card, the check in \<open>drawCard\<close> and the
  filter of the computer opponent deem a card playable iff its rank is 8, or its rank is
  the top card's, or its suit is the current suit; the human's site deems it playable iff
  that same condition holds and it is the player's turn in status \<open>playing\<close>. The three
  sites compute the one rule, each as a pure function of the card and the state.
\<close>

theorem playability_sites:
  "discardPile state \<noteq> [] \<Longrightarrow>
     canPlay c state = Inr (spec_isPlayable c (last (discardPile state)) (currentSuit state))
     \<and> aiCandidate c state
         = Inr (spec_isPlayable c (last (discardPile state)) (currentSuit state))
     \<and> playableCards state
         = Inr (filter (\<lambda>c. spec_isPlayable c (last (discardPile state)) (currentSuit state))
                  (aiHand state))
     \<and> isPlayable c state
         = (isPlayerTurn state
            \<and> spec_isPlayable c (last (discardPile state)) (currentSuit state))"
proof -
  assume ne: "discardPile state \<noteq> []"
  have ai: "aiCandidate x state
         = Inr (spec_isPlayable x (last (discardPile state)) (currentSuit state))" for x
    using ne by (simp add: aiCandidate_def spec_isPlayable_def)
  have "playableCards state
         = Inr (filter (\<lambda>c. spec_isPlayable c (last (discardPile state)) (currentSuit state))
                  (aiHand state))"
    unfolding playableCards_def by (rule filterE_total) (simp add: ai)
  moreover have "canPlay c state = Inr (spec_isPlayable c (last (discardPile state)) (currentSuit state))"
    using ne by (simp add: canPlay_def spec_isPlayable_def)
  moreover have "isPlayable c state
         = (isPlayerTurn state
            \<and> spec_isPlayable c (last (discardPile state)) (currentSuit state))"
    using ne by (simp add: isPlayable_def spec_isPlayable_def)
  ultimately show ?thesis using ai by simp
qed

theorem playability_sites_witness:
  "discardPile table2 \<noteq> []
   \<and> canPlay (mkCard FIVE SPADES) table2 = Inr True
   \<and> aiCandidate (mkCard KING HEARTS) table2 = Inr False
   \<and> playableCards table2
       = Inr [mkCard EIGHT CLUBS, mkCard NINE DIAMONDS, mkCard FIVE HEARTS,
              mkCard TWO DIAMONDS, mkCard FIVE SPADES]
   \<and> isPlayable (mkCard EIGHT SPADES) table1"
  using playability_sites [of table2 "mkCard FIVE SPADES"]
    playability_sites [of table2 "mkCard KING HEARTS"]
    playability_sites [of table1 "mkCard EIGHT SPADES"]
  by (simp add: table1_def table2_def mkCard_def spec_isPlayable_def isPlayerTurn_def)

section \<open>The computer's choice of suit after an 8\<close>

lemma fold_counts:
  "fold (\<lambda>c counts. counts(suit c := Suc (counts (suit c)))) h init s = init s + suit_count s h"
  by (induction h arbitrary: init) (auto simp: suit_count_def)

lemma count_suits_eq: "count_suits h s = suit_count s h"
  by (simp add: count_suits_def fold_counts)

lemma ai_suit_max: "count_suits h s \<le> count_suits h (ai_suit h)"
  by (cases s) (auto simp: ai_suit_def entries_of_def Let_def)

lemma ai_suit_last:
  "count_suits h s = count_suits h (ai_suit h) \<Longrightarrow> suit_index s \<le> suit_index (ai_suit h)"
  by (cases s) (auto simp: ai_suit_def entries_of_def Let_def split: if_splits)

text \<open>
  C7, as the claim states it, fails on ties: the computer plays the 8 of clubs and keeps
  one heart and one spade; hearts comes first in the enumeration, and the new current
  suit is spades.
\<close>

theorem ai_eight_suit_choice_counterexample:
  "rank (mkCard EIGHT CLUBS) = EIGHT
   \<and> aiHand (playCard (mkCard EIGHT CLUBS) ai table1) = [mkCard FOUR HEARTS, mkCard NINE SPADES]
   \<and> suit_count HEARTS [mkCard FOUR HEARTS, mkCard NINE SPADES] = 1
   \<and> suit_count SPADES [mkCard FOUR HEARTS, mkCard NINE SPADES] = 1
   \<and> currentSuit (playCard (mkCard EIGHT CLUBS) ai table1) = Some SPADES"
  by (simp add: table1_def mkCard_def playCard_def ai_suit_def entries_of_def count_suits_def
      suit_count_def)

text \<open>
  C7, amended. Whenever the computer plays an 8 and still has cards, the new current
  suit is a suit that occurs most often among the cards remaining in its hand, and among
  equally frequent suits it is the last one in the enumeration order hearts, diamonds,
  clubs, spades; the status is \<open>playing\<close> and the turn passes to the player.
\<close>

theorem ai_eight_suit_choice:
  "rank crd = EIGHT \<Longrightarrow> filter (\<lambda>c. cardId c \<noteq> cardId crd) (aiHand prev) = newHand \<Longrightarrow>
   newHand \<noteq> [] \<Longrightarrow>
     (\<exists>m. currentSuit (playCard crd ai prev) = Some m
        \<and> (\<forall>s. suit_count s newHand \<le> suit_count m newHand)
        \<and> (\<forall>s. suit_count s newHand = suit_count m newHand \<longrightarrow> suit_index s \<le> suit_index m))
     \<and> turn (playCard crd ai prev) = player
     \<and> status (playCard crd ai prev) = playing
     \<and> aiHand (playCard crd ai prev) = newHand"
proof -
  assume a: "rank crd = EIGHT" "filter (\<lambda>c. cardId c \<noteq> cardId crd) (aiHand prev) = newHand"
    "newHand \<noteq> []"
  have cur: "currentSuit (playCard crd ai prev) = Some (ai_suit newHand)"
    and rest: "turn (playCard crd ai prev) = player" "status (playCard crd ai prev) = playing"
      "aiHand (playCard crd ai prev) = newHand"
    using a by (simp_all add: playCard_def Let_def)
  have "\<forall>s. suit_count s newHand \<le> suit_count (ai_suit newHand) newHand"
    using ai_suit_max [of newHand] by (simp add: count_suits_eq)
  moreover have "\<forall>s. suit_count s newHand = suit_count (ai_suit newHand) newHand
      \<longrightarrow> suit_index s \<le> suit_index (ai_suit newHand)"
    using ai_suit_last [of newHand] by (simp add: count_suits_eq)
  ultimately show ?thesis using cur rest by blast
qed

theorem ai_eight_suit_choice_witness:
  "rank (mkCard EIGHT CLUBS) = EIGHT
   \<and> filter (\<lambda>c. cardId c \<noteq> cardId (mkCard EIGHT CLUBS)) (aiHand table2)
       = [mkCard NINE DIAMONDS, mkCard FIVE HEARTS, mkCard TWO DIAMONDS, mkCard KING HEARTS,
          mkCard FIVE SPADES]
   \<and> currentSuit (playCard (mkCard EIGHT CLUBS) ai table2) = Some DIAMONDS
   \<and> turn (playCard (mkCard EIGHT CLUBS) ai table2) = player
   \<and> status (playCard (mkCard EIGHT CLUBS) ai table2) = playing"
  using ai_eight_suit_choice [of "mkCard EIGHT CLUBS" table2
      "[mkCard NINE DIAMONDS, mkCard FIVE HEARTS, mkCard TWO DIAMONDS, mkCard KING HEARTS,
        mkCard FIVE SPADES]"]
  by (simp add: table1_def table2_def mkCard_def playCard_def ai_suit_def entries_of_def
      count_suits_def)

section \<open>The hard difficulty\<close>

lemma foldl_first_max:
  "\<exists>pre post. x # xs = pre @ foldl (\<lambda>prv curr. if f curr > f prv then curr else prv) x xs # post
      \<and> (\<forall>y\<in>set pre. f y < f (foldl (\<lambda>prv curr. if f curr > f prv then curr else prv) x xs))
      \<and> (\<forall>y\<in>set post. f y \<le> f (foldl (\<lambda>prv curr. if f curr > f prv then curr else prv) x xs))"
  (is "\<exists>pre post. ?P xs pre post")
  for f :: "'a \<Rightarrow> nat"
proof (induction xs rule: rev_induct)
  case Nil
  have "?P [] [] []" by simp
  then show ?case by blast
next
  case (snoc z zs)
  let ?g = "\<lambda>prv curr. if f curr > f prv then curr else prv"
  from snoc obtain pre post where IH: "?P zs pre post" by blast
  show ?case
  proof (cases "f z > f (foldl ?g x zs)")
    case True
    then have r: "foldl ?g x (zs @ [z]) = z" by simp
    have "?P (zs @ [z]) (x # zs) []"
      unfolding r using IH True by (auto simp: less_le_trans)
    then show ?thesis by blast
  next
    case False
    then have r: "foldl ?g x (zs @ [z]) = foldl ?g x zs" by simp
    have "?P (zs @ [z]) pre (post @ [z])"
      unfolding r using IH False by auto
    then show ?thesis by blast
  qed
qed


text \<open>
  C8. Under hard difficulty, on the computer's turn, with \<open>pcs\<close> the playable cards of its
  hand: if some of them is not an 8, the computer plays, among the playable cards that
  are not 8s, the first one (in the order of the hand) whose suit is held at least as
  often in the full hand as the suit of every other one; the card does not depend on the
  random pick. If all playable cards are 8s, it plays the first of them, an 8.
\<close>

theorem hard_choice:
  assumes "difficulty state = hard" and "status state = playing" and "turn state = ai"
    and "playableCards state = Inr pcs"
  shows "(discardPile state \<noteq> [] \<longrightarrow>
            pcs = filter (\<lambda>c. rank c = EIGHT \<or> rank c = rank (last (discardPile state))
                              \<or> Some (suit c) = currentSuit state) (aiHand state))
         \<and> (filter (\<lambda>c. rank c \<noteq> EIGHT) pcs \<noteq> [] \<longrightarrow>
              (\<exists>pre chosen post.
                 filter (\<lambda>c. rank c \<noteq> EIGHT) pcs = pre @ chosen # post
                 \<and> (\<forall>y\<in>set pre. suit_count (suit y) (aiHand state)
                                  < suit_count (suit chosen) (aiHand state))
                 \<and> (\<forall>y\<in>set post. suit_count (suit y) (aiHand state)
                                   \<le> suit_count (suit chosen) (aiHand state))
                 \<and> cardToPlay pick state pcs = Inr chosen
                 \<and> aiTurn pick state = Inr (playCard chosen ai state)))
         \<and> (pcs \<noteq> [] \<and> filter (\<lambda>c. rank c \<noteq> EIGHT) pcs = [] \<longrightarrow>
              rank (hd pcs) = EIGHT
              \<and> cardToPlay pick state pcs = Inr (hd pcs)
              \<and> aiTurn pick state = Inr (playCard (hd pcs) ai state))
         \<and> (\<forall>p. aiTurn p state = aiTurn pick state)"
proof (intro conjI impI)
  assume ne: "discardPile state \<noteq> []"
  have "playableCards state
      = Inr (filter (\<lambda>c. rank c = EIGHT \<or> rank c = rank (last (discardPile state))
                              \<or> Some (suit c) = currentSuit state) (aiHand state))"
    unfolding playableCards_def
    by (rule filterE_total) (simp add: aiCandidate_def ne)
  with assms(4) show "pcs = filter (\<lambda>c. rank c = EIGHT \<or> rank c = rank (last (discardPile state))
                              \<or> Some (suit c) = currentSuit state) (aiHand state)"
    by simp
next
  let ?ne = "filter (\<lambda>c. rank c \<noteq> EIGHT) pcs"
  let ?f = "\<lambda>c. suit_count (suit c) (aiHand state)"
  let ?r = "foldl (\<lambda>prv curr. if ?f curr > ?f prv then curr else prv) (hd ?ne) (tl ?ne)"
  assume ne: "?ne \<noteq> []"
  then have pcs: "pcs \<noteq> []" by auto
  have c: "cardToPlay pick state pcs = Inr ?r"
    using assms(1) ne by (simp add: cardToPlay_def Let_def count_suits_eq)
  have t: "aiTurn pick state = Inr (playCard ?r ai state)"
    using assms pcs c by (simp add: aiTurn_def)
  from foldl_first_max [of "hd ?ne" "tl ?ne" ?f] ne
  obtain pre post where "?ne = pre @ ?r # post" "\<forall>y\<in>set pre. ?f y < ?f ?r"
    "\<forall>y\<in>set post. ?f y \<le> ?f ?r"
    by auto
  with c t show "\<exists>pre chosen post.
                 ?ne = pre @ chosen # post
                 \<and> (\<forall>y\<in>set pre. suit_count (suit y) (aiHand state)
                                  < suit_count (suit chosen) (aiHand state))
                 \<and> (\<forall>y\<in>set post. suit_count (suit y) (aiHand state)
                                   \<le> suit_count (suit chosen) (aiHand state))
                 \<and> cardToPlay pick state pcs = Inr chosen
                 \<and> aiTurn pick state = Inr (playCard chosen ai state)"
    by blast
next
  assume a: "pcs \<noteq> [] \<and> filter (\<lambda>c. rank c \<noteq> EIGHT) pcs = []"
  then have "hd pcs \<in> set pcs" by simp
  moreover from a have "\<forall>c\<in>set pcs. rank c = EIGHT" by (simp add: filter_empty_conv)
  ultimately show "rank (hd pcs) = EIGHT" by blast
next
  assume a: "pcs \<noteq> [] \<and> filter (\<lambda>c. rank c \<noteq> EIGHT) pcs = []"
  then show "cardToPlay pick state pcs = Inr (hd pcs)"
    using assms(1) by (simp add: cardToPlay_def)
next
  assume a: "pcs \<noteq> [] \<and> filter (\<lambda>c. rank c \<noteq> EIGHT) pcs = []"
  then have "cardToPlay pick state pcs = Inr (hd pcs)"
    using assms(1) by (simp add: cardToPlay_def)
  then show "aiTurn pick state = Inr (playCard (hd pcs) ai state)"
    using assms a by (simp add: aiTurn_def)
next
  have e: "cardToPlay p state xs = cardToPlay pick state xs" for p xs
    using assms(1) by (simp add: cardToPlay_def)
  have "aiTurn p state = aiTurn pick state" for p
    unfolding aiTurn_def e [of p] by (rule refl)
  then show "\<forall>p. aiTurn p state = aiTurn pick state"
    by blast
qed

theorem hard_choice_witness:
  "difficulty table2 = hard \<and> status table2 = playing \<and> turn table2 = ai
   \<and> playableCards table2
       = Inr [mkCard EIGHT CLUBS, mkCard NINE DIAMONDS, mkCard FIVE HEARTS,
              mkCard TWO DIAMONDS, mkCard FIVE SPADES]
   \<and> suit_count DIAMONDS (aiHand table2) = 2 \<and> suit_count HEARTS (aiHand table2) = 2
   \<and> aiTurn 0 table2 = Inr (playCard (mkCard NINE DIAMONDS) ai table2)
   \<and> playableCards (table2\<lparr>aiHand := [mkCard KING HEARTS, mkCard EIGHT CLUBS, mkCard EIGHT SPADES]\<rparr>)
       = Inr [mkCard EIGHT CLUBS, mkCard EIGHT SPADES]
   \<and> aiTurn 0 (table2\<lparr>aiHand := [mkCard KING HEARTS, mkCard EIGHT CLUBS, mkCard EIGHT SPADES]\<rparr>)
       = Inr (playCard (mkCard EIGHT CLUBS) ai
                (table2\<lparr>aiHand := [mkCard KING HEARTS, mkCard EIGHT CLUBS, mkCard EIGHT SPADES]\<rparr>))"
proof -
  let ?t3 = "table2\<lparr>aiHand := [mkCard KING HEARTS, mkCard EIGHT CLUBS, mkCard EIGHT SPADES]\<rparr>"
  have h3: "difficulty ?t3 = hard" "status ?t3 = playing" "turn ?t3 = ai"
    by (simp_all add: table2_def table1_def)
  have p3: "playableCards ?t3 = Inr [mkCard EIGHT CLUBS, mkCard EIGHT SPADES]"
    by (simp add: table2_def table1_def playableCards_def aiCandidate_def mkCard_def)
  have t3: "aiTurn 0 ?t3 = Inr (playCard (mkCard EIGHT CLUBS) ai ?t3)"
    using hard_choice [OF h3 p3, of 0] by (simp add: mkCard_def)
  have h: "difficulty table2 = hard" "status table2 = playing" "turn table2 = ai"
    by (simp_all add: table2_def table1_def)
  have p: "playableCards table2
       = Inr [mkCard EIGHT CLUBS, mkCard NINE DIAMONDS, mkCard FIVE HEARTS,
              mkCard TWO DIAMONDS, mkCard FIVE SPADES]"
    by (simp add: table2_def table1_def playableCards_def aiCandidate_def mkCard_def)
  have n: "filter (\<lambda>c. rank c \<noteq> EIGHT) [mkCard EIGHT CLUBS, mkCard NINE DIAMONDS, mkCard FIVE HEARTS,
              mkCard TWO DIAMONDS, mkCard FIVE SPADES] = [mkCard NINE DIAMONDS, mkCard FIVE HEARTS,
              mkCard TWO DIAMONDS, mkCard FIVE SPADES]"
    by (simp add: mkCard_def)
  have s: "suit_count DIAMONDS (aiHand table2) = 2" "suit_count HEARTS (aiHand table2) = 2"
    "suit_count SPADES (aiHand table2) = 1"
    by (simp_all add: table2_def table1_def suit_count_def mkCard_def)
  from hard_choice [OF h p, of 0]
  obtain pre chosen post where
    d: "[mkCard NINE DIAMONDS, mkCard FIVE HEARTS, mkCard TWO DIAMONDS, mkCard FIVE SPADES]
         = pre @ chosen # post"
    and lt: "\<forall>y\<in>set pre. suit_count (suit y) (aiHand table2) < suit_count (suit chosen) (aiHand table2)"
    and le: "\<forall>y\<in>set post. suit_count (suit y) (aiHand table2) \<le> suit_count (suit chosen) (aiHand table2)"
    and t: "aiTurn 0 table2 = Inr (playCard chosen ai table2)"
    unfolding n by auto
  have "chosen = mkCard NINE DIAMONDS"
  proof (cases pre)
    case Nil
    with d show ?thesis by simp
  next
    case (Cons a pre')
    with d have a: "a = mkCard NINE DIAMONDS" and c: "chosen \<in> set [mkCard FIVE HEARTS, mkCard TWO DIAMONDS, mkCard FIVE SPADES]"
      by (auto simp: Cons_eq_append_conv)
    from lt Cons a have "suit_count DIAMONDS (aiHand table2) < suit_count (suit chosen) (aiHand table2)"
      by (simp add: mkCard_def)
    with c s show ?thesis by (auto simp: mkCard_def)
  qed
  with t h p s p3 t3 show ?thesis by simp
qed

section \<open>The deal\<close>

lemma length_createDeck: "length createDeck = 52"
  by (simp add: createDeck_def SUITS_def RANKS_def)

lemma distinct_ids_createDeck: "distinct (map cardId createDeck)"
  by (simp add: createDeck_def SUITS_def RANKS_def mkCard_def)

lemma eights_createDeck: "length (filter (\<lambda>c. rank c = EIGHT) createDeck) = 4"
  by (simp add: createDeck_def SUITS_def RANKS_def mkCard_def)

lemma swap_mset: "i < length xs \<Longrightarrow> j < length xs \<Longrightarrow> mset (swap i j xs) = mset xs"
  unfolding swap_def by (rule mset_swap)

lemma shuffle_loop_mset:
  "i < length xs \<Longrightarrow> \<forall>k. 0 < k \<and> k \<le> i \<longrightarrow> rnd k \<le> k \<Longrightarrow>
     mset (shuffle_loop rnd i xs) = mset xs"
proof (induction i arbitrary: xs)
  case 0
  then show ?case by simp
next
  case (Suc i)
  have "rnd (Suc i) \<le> Suc i" using Suc.prems(2) by blast
  then have j: "rnd (Suc i) < length xs" using Suc.prems(1) by (rule le_less_trans)
  have "mset (shuffle_loop rnd i (swap (Suc i) (rnd (Suc i)) xs)) = mset (swap (Suc i) (rnd (Suc i)) xs)"
    using Suc.prems by (intro Suc.IH) (auto simp: swap_def)
  then show ?case using Suc.prems j by (simp add: swap_mset)
qed

lemma shuffle_mset: "picks_ok rnd (length dk) \<Longrightarrow> mset (shuffle rnd dk) = mset dk"
proof (cases dk)
  case Nil
  then show ?thesis by (simp add: shuffle_def)
next
  case (Cons a as)
  assume "picks_ok rnd (length dk)"
  then have all: "\<forall>k\<in>set [1..<length dk]. rnd k \<le> k"
    by (simp only: picks_ok_def list_all_iff)
  have "rnd k \<le> k" if "0 < k \<and> k \<le> length dk - 1" for k
  proof -
    from that Cons have "k \<in> set [1..<length dk]" by auto
    with all show ?thesis by blast
  qed
  then have "\<forall>k. 0 < k \<and> k \<le> length dk - 1 \<longrightarrow> rnd k \<le> k"
    by blast
  then show ?thesis
    unfolding shuffle_def using Cons by (intro shuffle_loop_mset) auto
qed

lemma redraw_rotates:
  "rank x \<noteq> EIGHT \<Longrightarrow> \<forall>e\<in>set es. rank e = EIGHT \<Longrightarrow>
     redraw (last (as @ x # es)) (butlast (as @ x # es)) = Some (x, es @ as)"
proof (induction es arbitrary: as rule: rev_induct)
  case Nil
  then show ?case by (simp add: redraw.simps)
next
  case (snoc e es)
  have e8: "rank e = EIGHT" using snoc.prems by simp
  have "redraw (last (as @ x # es @ [e])) (butlast (as @ x # es @ [e]))
      = redraw e (as @ x # es)"
    by (simp add: butlast_append)
  also have "\<dots> = redraw (last ((e # as) @ x # es)) (butlast ((e # as) @ x # es))"
    using e8 by (subst redraw.simps) (simp add: Let_def)
  also have "\<dots> = Some (x, es @ e # as)"
    using snoc.prems by (intro snoc.IH) auto
  finally show ?case by simp
qed

lemma filter_length_mset:
  "mset xs = mset ys \<Longrightarrow> length (filter P xs) = length (filter P ys)"
  by (metis mset_filter size_mset)

lemma filter_length_drop: "length (filter P (drop n xs)) \<le> length (filter P xs)"
proof -
  have "length (filter P xs) = length (filter P (take n xs)) + length (filter P (drop n xs))"
    by (metis append_take_drop_id filter_append length_append)
  then show ?thesis by simp
qed

lemma initGame_result:
  assumes "picks_ok rnd 52"
  shows "\<exists>st topCard eights others.
      initGame rnd dif = Inr st
      \<and> playerHand st = take 8 (shuffle rnd createDeck) \<and> length (playerHand st) = 8
      \<and> aiHand st = take 8 (drop 8 (shuffle rnd createDeck)) \<and> length (aiHand st) = 8
      \<and> drop 16 (shuffle rnd createDeck) = others @ topCard # eights
      \<and> (\<forall>e\<in>set eights. rank e = EIGHT) \<and> rank topCard \<noteq> EIGHT
      \<and> discardPile st = [topCard]
      \<and> deck st = eights @ others \<and> length (deck st) = 35
      \<and> currentSuit st = Some (suit topCard)
      \<and> turn st = player \<and> status st = playing \<and> winner st = None \<and> difficulty st = dif"
proof -
  let ?sh = "shuffle rnd createDeck"
  let ?rest = "drop 16 ?sh"
  have m: "mset ?sh = mset createDeck"
    using assms by (simp add: shuffle_mset length_createDeck)
  then have len: "length ?sh = 52"
    using length_createDeck by (metis mset_eq_length)
  have le4: "length (filter (\<lambda>c. rank c = EIGHT) ?rest) \<le> 4"
    using filter_length_drop [of "\<lambda>c. rank c = EIGHT" 16 ?sh]
      filter_length_mset [OF m, of "\<lambda>c. rank c = EIGHT"] eights_createDeck by simp
  have lrest: "length ?rest = 36" using len by simp
  have "filter (\<lambda>c. rank c = EIGHT) ?rest \<noteq> ?rest"
  proof
    assume "filter (\<lambda>c. rank c = EIGHT) ?rest = ?rest"
    then have "length (filter (\<lambda>c. rank c = EIGHT) ?rest) = 36" using lrest by simp
    with le4 show False by simp
  qed
  then have "\<exists>c\<in>set ?rest. rank c \<noteq> EIGHT"
    by (auto simp: filter_id_conv)
  then obtain others topCard eights where
    d: "?rest = others @ topCard # eights" and t: "rank topCard \<noteq> EIGHT"
    and e: "\<forall>e\<in>set eights. \<not> rank e \<noteq> EIGHT"
    using split_list_last_prop [of ?rest "\<lambda>c. rank c \<noteq> EIGHT"] by blast
  from e have e': "\<forall>e\<in>set eights. rank e = EIGHT" by simp
  have r: "redraw (last ?rest) (butlast ?rest) = Some (topCard, eights @ others)"
    unfolding d using t e' by (rule redraw_rotates)
  have ne: "?rest \<noteq> []" using d by simp
  let ?st = "\<lparr>deck = eights @ others, playerHand = take 8 ?sh, aiHand = take 8 (drop 8 ?sh),
       discardPile = [topCard], currentSuit = Some (suit topCard),
       turn = player, status = playing, winner = None, difficulty = dif\<rparr>"
  have "initGame rnd dif = Inr ?st"
    using ne r by (simp add: initGame_def Let_def)
  moreover have "length (eights @ others) = 35"
    using lrest d by simp
  ultimately show ?thesis using d t e' len
    by (intro exI [of _ ?st] exI [of _ topCard] exI [of _ eights] exI [of _ others]) simp
qed

text \<open>
  C4. For every difficulty and every shuffle (its picks in range, each from 0 to the
  index it is made for), \<open>initGame\<close> ends in a state whose player hand is the first
  8 cards of the shuffled deck and whose computer hand is the next 8.
  Of the 36 cards left, the last one that is not an 8 is the single card of the discard
  pile; the 8s that followed it were each put back at the front of the deck, so the deck
  is those 8s followed by the cards that preceded the revealed one, 35 cards in all.
  The current suit is the revealed card's suit, the turn is the player's, the status is
  \<open>playing\<close>, there is no winner and the difficulty is the one asked for.
\<close>

theorem initGame_deal:
  "picks_ok rnd 52 \<Longrightarrow>
     \<exists>st topCard eights others.
      initGame rnd dif = Inr st
      \<and> playerHand st = take 8 (shuffle rnd createDeck) \<and> length (playerHand st) = 8
      \<and> aiHand st = take 8 (drop 8 (shuffle rnd createDeck)) \<and> length (aiHand st) = 8
      \<and> drop 16 (shuffle rnd createDeck) = others @ topCard # eights
      \<and> (\<forall>e\<in>set eights. rank e = EIGHT) \<and> rank topCard \<noteq> EIGHT
      \<and> discardPile st = [topCard]
      \<and> deck st = eights @ others \<and> length (deck st) = 35
      \<and> currentSuit st = Some (suit topCard)
      \<and> turn st = player \<and> status st = playing \<and> winner st = None \<and> difficulty st = dif"
  by (rule initGame_result)

theorem initGame_deal_witness:
  "picks_ok eight_last 52
   \<and> outcome (length \<circ> playerHand) (initGame eight_last hard) = Some 8
   \<and> outcome (length \<circ> aiHand) (initGame eight_last hard) = Some 8
   \<and> outcome (length \<circ> deck) (initGame eight_last hard) = Some 35
   \<and> outcome discardPile (initGame eight_last hard) = Some [mkCard QUEEN SPADES]
   \<and> outcome (hd \<circ> deck) (initGame eight_last hard) = Some (mkCard EIGHT HEARTS)
   \<and> outcome currentSuit (initGame eight_last hard) = Some (Some SPADES)
   \<and> outcome turn (initGame eight_last hard) = Some player
   \<and> outcome status (initGame eight_last hard) = Some playing"
proof -
  have h: "picks_ok eight_last 52"
    by (simp add: picks_ok_def eight_last_def list_all_iff)
  from initGame_deal [OF h, of hard] obtain st topCard where
    i: "initGame eight_last hard = Inr st" and
    p: "length (playerHand st) = 8" "length (aiHand st) = 8" "length (deck st) = 35"
      "discardPile st = [topCard]" "currentSuit st = Some (suit topCard)"
      "turn st = player" "status st = playing"
    by blast
  have d: "outcome discardPile (initGame eight_last hard) = Some [mkCard QUEEN SPADES]"
    by code_simp
  have k: "outcome (hd \<circ> deck) (initGame eight_last hard) = Some (mkCard EIGHT HEARTS)"
    by code_simp
  from d i p have "topCard = mkCard QUEEN SPADES" by (simp add: outcome_def)
  with h i p d k show ?thesis by (simp add: outcome_def mkCard_def)
qed

section \<open>Conservation of the cards\<close>

lemma set_SUITS: "set SUITS = UNIV"
proof -
  have "s \<in> set SUITS" for s by (cases s) (simp_all add: SUITS_def)
  then show ?thesis by blast
qed

lemma set_RANKS: "set RANKS = UNIV"
proof -
  have "r \<in> set RANKS" for r by (cases r) (simp_all add: RANKS_def)
  then show ?thesis by blast
qed

lemma set_createDeck: "set createDeck = {c. \<exists>r s. c = mkCard r s}"
  by (auto simp: createDeck_def set_SUITS set_RANKS)

lemma distinct_createDeck: "distinct createDeck"
  using distinct_ids_createDeck by (rule distinct_map [THEN iffD1, THEN conjunct1])

lemma submset_distinct_map:
  "mset h \<subseteq># mset d \<Longrightarrow> distinct (map f d) \<Longrightarrow> distinct (map f h)"
proof -
  assume s: "mset h \<subseteq># mset d" and d: "distinct (map f d)"
  have "image_mset f (mset h) \<subseteq># image_mset f (mset d)"
    using s by (rule image_mset_subseteq_mono)
  then have le: "count (mset (map f h)) a \<le> count (mset (map f d)) a" for a
    by (simp add: mset_subset_eq_count)
  have "count (mset (map f d)) a \<le> 1" for a
    using d by (simp add: distinct_count_atmost_1)
  with le have "count (mset (map f h)) a \<le> 1" for a
    by (meson le_trans)
  then show ?thesis
    by (metis count_greater_eq_one_iff count_mset_0_iff
        distinct_count_atmost_1 nle_le set_mset_mset)
qed

lemma filter_takes_one:
  "distinct (map cardId h) \<Longrightarrow> crd \<in> set h \<Longrightarrow>
     mset (filter (\<lambda>c. cardId c \<noteq> cardId crd) h) + {#crd#} = mset h"
proof (induction h)
  case Nil
  then show ?case by simp
next
  case (Cons a h)
  show ?case
  proof (cases "a = crd")
    case True
    with Cons.prems have "\<forall>c\<in>set h. cardId c \<noteq> cardId crd" by (auto simp: image_iff)
    then have "filter (\<lambda>c. cardId c \<noteq> cardId crd) h = h" by (simp add: filter_id_conv)
    with True show ?thesis by simp
  next
    case False
    with Cons.prems have "crd \<in> set h" "cardId a \<noteq> cardId crd" by (auto simp: image_iff)
    with Cons show ?thesis by simp
  qed
qed

lemma hand_distinct_ids:
  "all_cards st = mset createDeck \<Longrightarrow> distinct (map cardId (hand_of target st))"
proof -
  assume a: "all_cards st = mset createDeck"
  have "mset (hand_of target st) \<subseteq># all_cards st"
    by (cases target) (simp_all add: all_cards_def)
  with a show ?thesis
    using submset_distinct_map [of "hand_of target st" createDeck cardId] distinct_ids_createDeck
    by simp
qed

lemma playCard_fields:
  "deck (playCard crd target st) = deck st"
  "discardPile (playCard crd target st) = discardPile st @ [crd]"
  "playerHand (playCard crd target st)
     = (if target = player then filter (\<lambda>c. cardId c \<noteq> cardId crd) (playerHand st)
        else playerHand st)"
  "aiHand (playCard crd target st)
     = (if target = ai then filter (\<lambda>c. cardId c \<noteq> cardId crd) (aiHand st)
        else aiHand st)"
  by (cases target; simp add: playCard_def Let_def split: prod.splits)+

lemma playCard_conserved:
  assumes "conserved st" and "crd \<in> set (hand_of target st)"
  shows "conserved (playCard crd target st)"
proof -
  let ?h = "filter (\<lambda>c. cardId c \<noteq> cardId crd) (hand_of target st)"
  have eq: "mset ?h + {#crd#} = mset (hand_of target st)"
    using assms hand_distinct_ids [of st target] by (intro filter_takes_one) (simp_all add: conserved_def)
  have "all_cards (playCard crd target st) = all_cards st"
  proof (cases target)
    case player
    have "all_cards (playCard crd target st)
        = mset (deck st) + (mset ?h + {#crd#}) + mset (aiHand st) + mset (discardPile st)"
      using player by (simp add: all_cards_def playCard_fields del: mset_filter)
    also have "\<dots> = all_cards st"
      using eq unfolding player all_cards_def hand_of.simps by (simp only:)
    finally show ?thesis .
  next
    case ai
    have "all_cards (playCard crd target st)
        = mset (deck st) + mset (playerHand st) + (mset ?h + {#crd#}) + mset (discardPile st)"
      using ai by (simp add: all_cards_def playCard_fields del: mset_filter)
    also have "\<dots> = all_cards st"
      using eq unfolding ai all_cards_def hand_of.simps by (simp only:)
    finally show ?thesis .
  qed
  then show ?thesis using assms(1) by (simp add: conserved_def playCard_fields)
qed

lemma drawCard_conserved:
  assumes "conserved st"
  shows "\<exists>st'. drawCard target st = Inr st' \<and> conserved st'"
proof (cases "deck st = []")
  case True
  then show ?thesis using assms by (simp add: drawCard_def conserved_def all_cards_def)
next
  case False
  then have "mset (butlast (deck st) @ [last (deck st)]) = mset (deck st)"
    by simp
  then have e: "mset (deck st) = mset (butlast (deck st)) + {#last (deck st)#}"
    by (simp del: append_butlast_last_id)
  have c: "conserved ((with_hand target (hand_of target st @ [last (deck st)]) st)
                         \<lparr>deck := butlast (deck st), turn := t\<rparr>)" for t
    using assms by (cases target) (simp_all add: conserved_def all_cards_def e)
  obtain b where b: "canPlay (last (deck st)) st = Inr b"
    using assms by (cases "rank (last (deck st)) = EIGHT") (simp_all add: canPlay_def conserved_def)
  show ?thesis
    using False b c by (simp add: drawCard_def Let_def)
qed

lemma selectSuit_conserved: "conserved st \<Longrightarrow> conserved (selectSuit s st)"
  by (simp add: conserved_def selectSuit_def all_cards_def)

lemma initGame_conserved:
  assumes "picks_ok rnd 52"
  shows "\<exists>st. initGame rnd dif = Inr st \<and> conserved st"
proof -
  let ?sh = "shuffle rnd createDeck"
  from initGame_result [OF assms, of dif] obtain st topCard eights others where
    i: "initGame rnd dif = Inr st" and p: "playerHand st = take 8 ?sh"
    and a: "aiHand st = take 8 (drop 8 ?sh)" and r: "drop 16 ?sh = others @ topCard # eights"
    and d: "discardPile st = [topCard]" and k: "deck st = eights @ others"
    by blast
  have "take 8 (drop 8 ?sh) @ drop 8 (drop 8 ?sh) = drop 8 ?sh"
    by (rule append_take_drop_id)
  then have "mset (drop 8 ?sh) = mset (take 8 (drop 8 ?sh)) + mset (drop 16 ?sh)"
    by (metis drop_drop mset_append numeral_Bit0)
  moreover have "mset ?sh = mset (take 8 ?sh) + mset (drop 8 ?sh)"
    by (metis append_take_drop_id mset_append)
  ultimately
  have "mset ?sh = mset (take 8 ?sh) + mset (take 8 (drop 8 ?sh)) + mset (drop 16 ?sh)"
    by (simp add: add.assoc)
  then have "all_cards st = mset ?sh"
    by (simp add: all_cards_def p a d k r)
  then show ?thesis using i d assms by (simp add: conserved_def shuffle_mset length_createDeck)
qed

lemma step_conserved:
  "held st a \<Longrightarrow> conserved st \<or> (\<exists>rnd dif. a = Start rnd dif) \<Longrightarrow>
     \<exists>st'. step st a = Inr st' \<and> conserved st'"
  by (cases a) (auto simp: playCard_conserved drawCard_conserved selectSuit_conserved
      initGame_conserved)

lemma run_conserved:
  "all_held st acts \<Longrightarrow> conserved st \<Longrightarrow> \<exists>st'. run st acts = Inr st' \<and> conserved st'"
proof (induction acts arbitrary: st)
  case Nil
  then show ?case by simp
next
  case (Cons a acts)
  from Cons.prems obtain st1 where s: "step st a = Inr st1" "conserved st1"
    using step_conserved [of st a] by auto
  with Cons.prems have "all_held st1 acts" by simp
  with Cons.IH s show ?case by simp
qed

text \<open>
  C1, as the claim states it, fails: \<open>playCard\<close> appends whatever card it is given.
  After a deal that reveals the king of spades, a \<open>Play\<close> of that king for the player,
  who does not hold it, leaves 53 cards on the table, the king twice in the discard pile.
\<close>

theorem cards_conserved_counterexample:
  "outcome total
     (run initialState [Start keep_order normal, Play (mkCard KING SPADES) player]) = Some 53
   \<and> outcome discardPile
     (run initialState [Start keep_order normal, Play (mkCard KING SPADES) player])
       = Some [mkCard KING SPADES, mkCard KING SPADES]"
  by code_simp

text \<open>
  C1, amended. After any sequence of Start, Draw, Play and ChooseSuit operations that
  begins with a Start and in which every Play names a card that its target holds at that
  moment, every operation ends in a state, and in the last one the deck, the two hands and
  the discard pile together hold exactly the cards of \<open>createDeck\<close>: no card twice, every
  card \<open>mkCard r s\<close> present, 52 in all.
\<close>

theorem cards_conserved:
  assumes "all_held st0 (Start rnd dif # acts)"
  shows "\<exists>st. run st0 (Start rnd dif # acts) = Inr st
     \<and> all_cards st = mset createDeck
     \<and> total st = 52
     \<and> distinct (deck st @ playerHand st @ aiHand st @ discardPile st)
     \<and> set (deck st @ playerHand st @ aiHand st @ discardPile st) = {c. \<exists>r s. c = mkCard r s}"
proof -
  from assms have h: "picks_ok rnd 52" by simp
  then obtain st1 where s1: "initGame rnd dif = Inr st1" "conserved st1"
    using initGame_conserved by blast
  with assms have "all_held st1 acts" by simp
  with s1 obtain st where s: "run st1 acts = Inr st" "conserved st"
    using run_conserved by blast
  let ?all = "deck st @ playerHand st @ aiHand st @ discardPile st"
  have m: "mset ?all = mset createDeck"
    using s(2) by (simp add: conserved_def all_cards_def add.assoc)
  have "total st = length ?all" by (simp add: total_def)
  also have "\<dots> = 52" using m length_createDeck by (metis mset_eq_length)
  finally have t: "total st = 52" .
  have d: "distinct ?all"
    using m distinct_createDeck by (metis mset_eq_imp_distinct_iff)
  have e: "set ?all = {c. \<exists>r s. c = mkCard r s}"
    using m set_createDeck by (metis mset_eq_setD)
  have "run st0 (Start rnd dif # acts) = Inr st"
    using s1 s by simp
  with s(2) t d e show ?thesis by (simp add: conserved_def)
qed

theorem cards_conserved_witness:
  "all_held initialState
     [Start keep_order normal, Play (mkCard EIGHT HEARTS) player, ChooseSuit DIAMONDS,
      Play (mkCard ACE DIAMONDS) ai, Draw player]
   \<and> outcome total
       (run initialState
          [Start keep_order normal, Play (mkCard EIGHT HEARTS) player, ChooseSuit DIAMONDS,
           Play (mkCard ACE DIAMONDS) ai, Draw player]) = Some 52
   \<and> outcome discardPile
       (run initialState
          [Start keep_order normal, Play (mkCard EIGHT HEARTS) player, ChooseSuit DIAMONDS,
           Play (mkCard ACE DIAMONDS) ai, Draw player])
       = Some [mkCard KING SPADES, mkCard EIGHT HEARTS, mkCard ACE DIAMONDS]"
proof -
  have h: "all_held initialState
     [Start keep_order normal, Play (mkCard EIGHT HEARTS) player, ChooseSuit DIAMONDS,
      Play (mkCard ACE DIAMONDS) ai, Draw player]"
    by code_simp
  have d: "outcome discardPile
       (run initialState
          [Start keep_order normal, Play (mkCard EIGHT HEARTS) player, ChooseSuit DIAMONDS,
           Play (mkCard ACE DIAMONDS) ai, Draw player])
       = Some [mkCard KING SPADES, mkCard EIGHT HEARTS, mkCard ACE DIAMONDS]"
    by code_simp
  from cards_conserved [OF h] obtain st where
    "run initialState
          [Start keep_order normal, Play (mkCard EIGHT HEARTS) player, ChooseSuit DIAMONDS,
           Play (mkCard ACE DIAMONDS) ai, Draw player] = Inr st" "total st = 52"
    by blast
  then have "outcome total
       (run initialState
          [Start keep_order normal, Play (mkCard EIGHT HEARTS) player, ChooseSuit DIAMONDS,
           Play (mkCard ACE DIAMONDS) ai, Draw player]) = Some 52"
    by (simp add: outcome_def)
  with h d show ?thesis by blast
qed

end
